theory Spec2Isabelle
  imports Complex_Main "HOL-Library.Word" "HOL-Library.AList"
begin

section \<open>Common data\<close>

text \<open>
  The exceptions the three scripts can raise or let through. A raise is the \<open>Inl\<close>
  branch of a sum; \<open>CalledProcessError\<close> carries what \<open>subprocess.run\<close> stores in it
  (command, exit code, captured output and captured error output; the captures are
  \<open>None\<close> when the call did not ask for them).
\<close>

datatype error =
    ValueError string
  | UnicodeDecodeError
  | FileNotFoundError
  | FileExistsError
  | NotADirectoryError
  | ShutilError
  | CalledProcessError "string list" int "string option" "string option"

type_synonym byte = "8 word"

text \<open>Decoded text is a list of Unicode code points.\<close>

type_synonym unicode = "nat list"

type_synonym decoder = "byte list \<Rightarrow> unicode option"

section \<open>data\_ingestion.py: reading an HTML file\<close>

text \<open>
  Python's codecs are not part of the repository. The UTF-8 and Windows-1252 decoders are
  parameters (\<open>None\<close> is a \<open>UnicodeDecodeError\<close>); Latin-1, of which \<open>iso-8859-1\<close> is an
  alias, maps each byte to the code point of the same number and so is written out.
\<close>

record codecs =
  utf_8 :: decoder
  cp1252 :: decoder

definition latin_1 :: decoder where
  "latin_1 bs = Some (map unat bs)"

definition py_decode :: "codecs \<Rightarrow> string \<Rightarrow> decoder" where
  "py_decode cs encoding =
     (if encoding = ''utf-8'' then utf_8 cs
      else if encoding = ''latin-1'' then latin_1
      else if encoding = ''windows-1252'' then cp1252 cs
      else if encoding = ''iso-8859-1'' then latin_1
      else (\<lambda>bs. None))"

text \<open>Text mode reads with universal newlines: CR LF and a lone CR become LF.\<close>

fun universal_newlines :: "unicode \<Rightarrow> unicode" where
  "universal_newlines [] = []"
| "universal_newlines [c] = (if c = 13 then [10] else [c])"
| "universal_newlines (c # d # cs) =
     (if c = 13 \<and> d = 10 then 10 # universal_newlines cs
      else if c = 13 then 10 # universal_newlines (d # cs)
      else c # universal_newlines (d # cs))"

text \<open>\<open>open(html_path, "r", encoding=encoding).read()\<close> on a file holding the bytes \<open>bs\<close>.\<close>

definition read_text :: "codecs \<Rightarrow> string \<Rightarrow> byte list \<Rightarrow> unicode option" where
  "read_text cs encoding bs = map_option universal_newlines (py_decode cs encoding bs)"

definition encodings :: "string list" where
  "encodings = [''utf-8'', ''latin-1'', ''windows-1252'', ''iso-8859-1'']"

text \<open>
  The loop \<open>for encoding in encodings: try: ... break except UnicodeDecodeError: continue\<close>.
  The result is the encoding that was used together with \<open>html_str\<close>; \<open>None\<close> is
  \<open>html_str is None\<close> after the loop.
\<close>

fun try_encodings :: "codecs \<Rightarrow> byte list \<Rightarrow> string list \<Rightarrow> (string \<times> unicode) option" where
  "try_encodings cs bs [] = None"
| "try_encodings cs bs (encoding # rest) =
     (case read_text cs encoding bs of
        Some html_str \<Rightarrow> Some (encoding, html_str)
      | None \<Rightarrow> try_encodings cs bs rest)"

definition could_not_decode :: "string \<Rightarrow> error" where
  "could_not_decode html_path =
     ValueError (''Could not decode '' @ html_path @ '' with any of the attempted encodings'')"

text \<open>
  Lines 97 to 111 of \<open>parse_html_to_chunks\<close>: the file system is a map from paths to file
  contents, a missing file makes \<open>open\<close> raise, which the loop does not catch. The value is
  the lines printed and the outcome.
\<close>

definition read_html_str ::
  "codecs \<Rightarrow> (string \<rightharpoonup> byte list) \<Rightarrow> string \<Rightarrow> string list \<times> (error + unicode)" where
  "read_html_str cs files html_path =
     (case files html_path of
        None \<Rightarrow> ([], Inl FileNotFoundError)
      | Some bs \<Rightarrow>
          (case try_encodings cs bs encodings of
             Some (encoding, html_str) \<Rightarrow>
               ([''[DEBUG] Successfully read '' @ html_path @ '' with '' @ encoding @ '' encoding''],
                Inr html_str)
           | None \<Rightarrow> ([], Inl (could_not_decode html_path))))"

text \<open>
  The rest of the function hands \<open>html_str\<close> to the section splitter and the text
  splitter of an external library, here the parameter \<open>split_chunks\<close>.
\<close>

definition parse_html_to_chunks ::
  "codecs \<Rightarrow> (unicode \<Rightarrow> error + 'c) \<Rightarrow> (string \<rightharpoonup> byte list) \<Rightarrow> string
     \<Rightarrow> string list \<times> (error + 'c)" where
  "parse_html_to_chunks cs split_chunks files html_path =
     (case read_html_str cs files html_path of
        (out, Inl e) \<Rightarrow> (out, Inl e)
      | (out, Inr html_str) \<Rightarrow> (out, split_chunks html_str))"

text \<open>The same function in test-integration.py opens the file as UTF-8 only.\<close>

definition ti_parse_html_to_chunks ::
  "codecs \<Rightarrow> (unicode \<Rightarrow> error + 'c) \<Rightarrow> (string \<rightharpoonup> byte list) \<Rightarrow> string \<Rightarrow> error + 'c" where
  "ti_parse_html_to_chunks cs split_chunks files html_path =
     (case files html_path of
        None \<Rightarrow> Inl FileNotFoundError
      | Some bs \<Rightarrow>
          (case read_text cs ''utf-8'' bs of
             None \<Rightarrow> Inl UnicodeDecodeError
           | Some html_str \<Rightarrow> split_chunks html_str))"

section \<open>batch\_processor.py: the input directory\<close>

text \<open>
  The input directory is a tree: an entry is a regular file (with an identifier standing
  for its content) or a directory with its own entries. A listing is an association list
  from names to entries, in the order in which the directory is enumerated.
\<close>

datatype node = File nat | Dir "(string \<times> node) list"

type_synonym dir = "(string \<times> node) list"

definition endswith :: "string \<Rightarrow> string \<Rightarrow> bool" where
  "endswith s suffix = (length suffix \<le> length s \<and> drop (length s - length suffix) s = suffix)"

text \<open>
  \<open>input_path.glob("*.txt")\<close>: the entries of the top level whose name ends in \<open>.txt\<close>.
  The pattern is matched against names only, so a directory of such a name is yielded too.
\<close>

definition glob_txt :: "dir \<Rightarrow> string list" where
  "glob_txt input_dir = filter (\<lambda>name. endswith name ''.txt'') (map fst input_dir)"

section \<open>batch\_processor.py: split\_input\_by\_source\<close>

text \<open>\<open>s.split(sep)\<close> for a separator of one character.\<close>

fun str_split :: "char \<Rightarrow> string \<Rightarrow> string list" where
  "str_split sep [] = [[]]"
| "str_split sep (c # cs) =
     (if c = sep then [] # str_split sep cs
      else (case str_split sep cs of
              [] \<Rightarrow> [[c]]
            | w # ws \<Rightarrow> (c # w) # ws))"

text \<open>\<open>file.name.split('_')[0]\<close>\<close>

definition prefix_of :: "string \<Rightarrow> string" where
  "prefix_of name = hd (str_split CHR ''_'' name)"

text \<open>
  The dictionary \<open>files_by_prefix\<close> keeps its keys in insertion order, which is the order
  of the second loop: an association list. One round of the first loop adds the key with
  an empty list when it is new and appends the file to the key's list.
\<close>

type_synonym groups = "(string \<times> string list) list"

definition add_file :: "groups \<Rightarrow> string \<Rightarrow> groups" where
  "add_file files_by_prefix file =
     (let prefix = prefix_of file;
          d = (if map_of files_by_prefix prefix = None
               then files_by_prefix @ [(prefix, [])] else files_by_prefix)
      in map (\<lambda>(k, files). if k = prefix then (k, files @ [file]) else (k, files)) d)"

definition group_files :: "string list \<Rightarrow> groups" where
  "group_files files = foldl add_file [] files"

text \<open>
  \<open>range(start, stop, step)\<close>: a zero step raises, a positive step counts up while below
  \<open>stop\<close>, a negative one counts down while above it.
\<close>

function range_from :: "int \<Rightarrow> int \<Rightarrow> int \<Rightarrow> int list" where
  "range_from i stop step =
     (if (0 < step \<and> i < stop) \<or> (step < 0 \<and> stop < i)
      then i # range_from (i + step) stop step else [])"
  by pat_completeness auto
termination
  by (relation "measure (\<lambda>(i, stop, step). nat (if 0 < step then stop - i else i - stop))") auto

declare range_from.simps [simp del]

definition py_range :: "int \<Rightarrow> int \<Rightarrow> int \<Rightarrow> error + int list" where
  "py_range start stop step =
     (if step = 0 then Inl (ValueError ''range() arg 3 must not be zero'')
      else Inr (range_from start stop step))"

text \<open>The slice \<open>xs[i:j]\<close>: negative bounds count from the end, both are clamped.\<close>

definition py_slice :: "'a list \<Rightarrow> int \<Rightarrow> int \<Rightarrow> 'a list" where
  "py_slice xs i j =
     (let n = int (length xs);
          clamp = (\<lambda>k. if k < 0 then max 0 (k + n) else min k n);
          a = clamp i; b = clamp j
      in take (nat (b - a)) (drop (nat a) xs))"

text \<open>The decimal digits of a part index, as the f-string writes it.\<close>

fun str_nat :: "nat \<Rightarrow> string" where
  "str_nat n = (if n < 10 then [''0123456789'' ! n]
                else str_nat (n div 10) @ [''0123456789'' ! (n mod 10)])"

declare str_nat.simps [simp del]

text \<open>
  The function reads the directory once, in the first loop; after that its effects are
  calls of \<open>subdir.mkdir(exist_ok=True)\<close> and \<open>shutil.move(str(file), str(subdir / file.name))\<close>.
  \<open>Mkdir d\<close> is the first for the subdirectory \<open>d\<close> of the input directory, \<open>Move f d\<close>
  the second for the entry \<open>f\<close> of the input directory. The state threaded through the
  second loop is the calls made so far and \<open>created_dirs\<close>. The progress messages the
  function prints are left out: nothing depends on them.
\<close>

datatype call = Mkdir string | Move string string

type_synonym progress = "call list \<times> string list"

text \<open>Create one subdirectory, record it, move the given files into it.\<close>

definition fill_subdir :: "string \<Rightarrow> string list \<Rightarrow> progress \<Rightarrow> progress" where
  "fill_subdir subdir files st =
     (case st of (calls, created_dirs) \<Rightarrow>
        (calls @ Mkdir subdir # map (\<lambda>file. Move file subdir) files, created_dirs @ [subdir]))"

text \<open>
  The body of the second loop for one group. The list of chunks is built before the first
  call, so a \<open>ValueError\<close> of \<open>range\<close> leaves the state as it was.
\<close>

definition process_group :: "int \<Rightarrow> string \<times> string list \<Rightarrow> progress \<Rightarrow> error + progress" where
  "process_group batch_size g st =
     (case g of (prefix, files) \<Rightarrow>
        if int (length files) \<le> batch_size then Inr (fill_subdir prefix files st)
        else (case py_range 0 (int (length files)) batch_size of
                Inl e \<Rightarrow> Inl e
              | Inr starts \<Rightarrow>
                  Inr (foldl (\<lambda>st (i, chunk). fill_subdir (prefix @ ''_part'' @ str_nat i) chunk st) st
                         (List.enumerate 1 (map (\<lambda>i. py_slice files i (i + batch_size)) starts)))))"

fun process_groups :: "int \<Rightarrow> groups \<Rightarrow> progress \<Rightarrow> call list \<times> (error + string list)" where
  "process_groups batch_size [] st = (fst st, Inr (snd st))"
| "process_groups batch_size (g # gs) st =
     (case process_group batch_size g st of
        Inl e \<Rightarrow> (fst st, Inl e)
      | Inr st' \<Rightarrow> process_groups batch_size gs st')"

text \<open>The calls the function makes, and what it returns or raises by itself.\<close>

definition split_input_by_source :: "dir \<Rightarrow> int \<Rightarrow> call list \<times> (error + string list)" where
  "split_input_by_source input_dir batch_size =
     process_groups batch_size (group_files (glob_txt input_dir)) ([], [])"



section \<open>The calls on the file system\<close>

text \<open>
  \<open>Path.mkdir(exist_ok=True)\<close> on a name of the input directory: a new empty directory,
  nothing when a directory of that name exists, \<open>FileExistsError\<close> when the name is taken
  by a regular file.
\<close>

definition mkdir :: "string \<Rightarrow> dir \<Rightarrow> error + dir" where
  "mkdir name t =
     (case map_of t name of
        None \<Rightarrow> Inr (t @ [(name, Dir [])])
      | Some (Dir es) \<Rightarrow> Inr t
      | Some (File c) \<Rightarrow> Inl FileExistsError)"

text \<open>
  \<open>shutil.move\<close> of the entry \<open>src\<close> of the input directory to the path \<open>subdir/src\<close>, on
  one POSIX file system without symbolic links and with all permissions. When the
  destination path is free the entry is renamed. When it is a regular file, a regular
  file replaces it and a directory fails to. When it is a directory the entry goes into it
  under its own name, unless that is taken. A directory cannot be moved into itself.
\<close>

definition shutil_move :: "string \<Rightarrow> string \<Rightarrow> dir \<Rightarrow> error + dir" where
  "shutil_move src subdir t =
     (case map_of t src of
        None \<Rightarrow> Inl FileNotFoundError
      | Some n \<Rightarrow>
          (case map_of t subdir of
             None \<Rightarrow> Inl FileNotFoundError
           | Some (File c) \<Rightarrow> Inl NotADirectoryError
           | Some (Dir es) \<Rightarrow>
               if src = subdir then Inl ShutilError
               else (case map_of es src of
                       None \<Rightarrow>
                         Inr (AList.update subdir (Dir (es @ [(src, n)])) (AList.delete src t))
                     | Some (File c) \<Rightarrow>
                         (case n of
                            File c' \<Rightarrow>
                              Inr (AList.update subdir (Dir (AList.update src n es))
                                     (AList.delete src t))
                          | Dir ns \<Rightarrow> Inl FileExistsError)
                     | Some (Dir ds) \<Rightarrow>
                         (case map_of ds src of
                            None \<Rightarrow>
                              Inr (AList.update subdir
                                     (Dir (AList.update src (Dir (ds @ [(src, n)])) es))
                                     (AList.delete src t))
                          | Some x \<Rightarrow> Inl ShutilError))))"

fun exec_call :: "call \<Rightarrow> dir \<Rightarrow> error + dir" where
  "exec_call (Mkdir d) t = mkdir d t"
| "exec_call (Move f d) t = shutil_move f d t"

text \<open>The calls in order; the first one that raises ends the run.\<close>

fun exec_calls :: "call list \<Rightarrow> dir \<Rightarrow> error option \<times> dir" where
  "exec_calls [] t = (None, t)"
| "exec_calls (c # cs) t =
     (case exec_call c t of
        Inl e \<Rightarrow> (Some e, t)
      | Inr t' \<Rightarrow> exec_calls cs t')"

text \<open>
  A run of \<open>split_input_by_source\<close> on a directory: what it returns or raises, and the
  directory it leaves.
\<close>

definition run_split :: "dir \<Rightarrow> int \<Rightarrow> (error + string list) \<times> dir" where
  "run_split input_dir batch_size =
     (case split_input_by_source input_dir batch_size of
        (calls, r) \<Rightarrow>
          (case exec_calls calls input_dir of
             (Some e, t) \<Rightarrow> (Inl e, t)
           | (None, t) \<Rightarrow> (r, t)))"

section \<open>Auxiliary notions for the proofs\<close>

text \<open>The elements of a list in the order of their first occurrence.\<close>

definition first_seen :: "'a list \<Rightarrow> 'a list" where
  "first_seen xs = rev (remdups (rev xs))"

text \<open>What the first loop computes: per prefix, in order of appearance, the files that have it.\<close>

definition grouped :: "string list \<Rightarrow> groups" where
  "grouped files =
     map (\<lambda>k. (k, filter (\<lambda>f. prefix_of f = k) files)) (first_seen (map prefix_of files))"

text \<open>The consecutive pieces of at most \<open>b\<close> elements.\<close>

definition chunks_of :: "nat \<Rightarrow> 'a list \<Rightarrow> 'a list list" where
  "chunks_of b xs = map (\<lambda>k. take b (drop (k * b) xs)) [0..<(length xs + b - 1) div b]"

text \<open>The destinations of one group, each with the files it gets.\<close>

definition dests :: "nat \<Rightarrow> string \<times> string list \<Rightarrow> (string \<times> string list) list" where
  "dests b g =
     (case g of (prefix, files) \<Rightarrow>
        if length files \<le> b then [(prefix, files)]
        else map (\<lambda>(i, chunk). (prefix @ ''_part'' @ str_nat i, chunk))
               (List.enumerate 1 (chunks_of b files)))"

definition emit :: "(string \<times> string list) list \<Rightarrow> call list" where
  "emit plan = concat (map (\<lambda>(d, files). Mkdir d # map (\<lambda>f. Move f d) files) plan)"

definition plan :: "dir \<Rightarrow> nat \<Rightarrow> (string \<times> string list) list" where
  "plan input_dir b = concat (map (dests b) (grouped (glob_txt input_dir)))"



text \<open>The names of the input directory a call may change.\<close>

definition touched :: "call \<Rightarrow> string set" where
  "touched c = (case c of Mkdir d \<Rightarrow> {d} | Move f d \<Rightarrow> {f, d})"

section \<open>Properties of the decoding loop\<close>

lemma read_text_latin_1: "read_text cs ''latin-1'' bs = Some (universal_newlines (map unat bs))"
  by (simp add: read_text_def py_decode_def latin_1_def)

lemma try_encodings_None:
  "(try_encodings cs bs encs = None) = (\<forall>enc \<in> set encs. read_text cs enc bs = None)"
  by (induction encs) (auto split: option.splits)

lemma try_encodings_first:
  "try_encodings cs bs encs = Some (enc, s) \<longleftrightarrow>
     (\<exists>i < length encs. encs ! i = enc \<and> read_text cs enc bs = Some s \<and>
        (\<forall>j < i. read_text cs (encs ! j) bs = None))"
proof (induction encs)
  case Nil
  then show ?case by simp
next
  case (Cons e es)
  show ?case
  proof (cases "read_text cs e bs")
    case None
    have "(\<exists>i < length (e # es). (e # es) ! i = enc \<and> read_text cs enc bs = Some s \<and>
            (\<forall>j < i. read_text cs ((e # es) ! j) bs = None))
          \<longleftrightarrow> (\<exists>i < length es. es ! i = enc \<and> read_text cs enc bs = Some s \<and>
            (\<forall>j < i. read_text cs (es ! j) bs = None))" (is "?L \<longleftrightarrow> ?R")
    proof
      assume ?L
      then obtain i where i: "i < length (e # es)" "(e # es) ! i = enc"
        "read_text cs enc bs = Some s" "\<forall>j < i. read_text cs ((e # es) ! j) bs = None"
        by blast
      from i None obtain k where k: "i = Suc k" by (cases i) auto
      have "\<forall>j < k. read_text cs (es ! j) bs = None"
      proof (intro allI impI)
        fix j assume "j < k"
        then have "Suc j < i" using k by simp
        with i(4) have "read_text cs ((e # es) ! Suc j) bs = None" by blast
        then show "read_text cs (es ! j) bs = None" by simp
      qed
      with i k show ?R by auto
    next
      assume ?R
      then obtain i where i: "i < length es" "es ! i = enc"
        "read_text cs enc bs = Some s" "\<forall>j < i. read_text cs (es ! j) bs = None"
        by blast
      have "\<forall>j < Suc i. read_text cs ((e # es) ! j) bs = None"
      proof (intro allI impI)
        fix j assume "j < Suc i"
        then show "read_text cs ((e # es) ! j) bs = None"
          using None i(4) by (cases j) auto
      qed
      with i show ?L by (intro exI [of _ "Suc i"]) simp
    qed
    with None Cons show ?thesis by simp
  next
    case (Some t)
    have "(\<exists>i < length (e # es). (e # es) ! i = enc \<and> read_text cs enc bs = Some s \<and>
            (\<forall>j < i. read_text cs ((e # es) ! j) bs = None)) \<longleftrightarrow> (e = enc \<and> t = s)"
      (is "?L \<longleftrightarrow> ?R")
    proof
      assume ?L
      then obtain i where i: "i < length (e # es)" "(e # es) ! i = enc"
        "read_text cs enc bs = Some s" "\<forall>j < i. read_text cs ((e # es) ! j) bs = None"
        by blast
      have "i = 0"
      proof (rule ccontr)
        assume "i \<noteq> 0"
        then have "read_text cs ((e # es) ! 0) bs = None" using i(4) by blast
        with Some show False by simp
      qed
      with i Some show ?R by simp
    next
      assume ?R
      with Some show ?L by (intro exI [of _ 0]) simp
    qed
    with Some show ?thesis by auto
  qed
qed

lemma try_encodings_latin_1:
  "\<exists>enc s. try_encodings cs bs encodings = Some (enc, s) \<and> (enc = ''utf-8'' \<or> enc = ''latin-1'')"
  by (simp add: encodings_def read_text_latin_1 split: option.splits)

text \<open>
  C7. For an existing file, \<open>parse_html_to_chunks\<close> of data\_ingestion.py tries the
  encodings utf-8, latin-1, windows-1252, iso-8859-1 in this order and uses the first one
  that decodes the file: the loop yields encoding \<open>enc\<close> and text \<open>s\<close> exactly when \<open>enc\<close>
  decodes to \<open>s\<close> and every encoding before it fails, and the text is then handed to the
  splitters. The reading stage raises exactly when every encoding of the sequence fails, and
  what it raises is the could-not-decode \<open>ValueError\<close>. The variant in test-integration.py
  has the one-element sequence utf-8 and raises \<open>UnicodeDecodeError\<close> when it fails.
\<close>

theorem parse_html_to_chunks_encodings:
  "files p = Some bs \<Longrightarrow>
     (try_encodings cs bs encodings = Some (enc, s) \<longleftrightarrow>
        (\<exists>i < length encodings. encodings ! i = enc \<and> read_text cs enc bs = Some s \<and>
           (\<forall>j < i. read_text cs (encodings ! j) bs = None))) \<and>
     (try_encodings cs bs encodings = Some (enc, s) \<longrightarrow>
        parse_html_to_chunks cs sp files p =
          ([''[DEBUG] Successfully read '' @ p @ '' with '' @ enc @ '' encoding''], sp s)) \<and>
     ((\<forall>e \<in> set encodings. read_text cs e bs = None) \<longleftrightarrow>
        snd (read_html_str cs files p) = Inl (could_not_decode p)) \<and>
     ((\<forall>e \<in> set encodings. read_text cs e bs = None) \<longleftrightarrow> isl (snd (read_html_str cs files p))) \<and>
     ((\<forall>e \<in> set encodings. read_text cs e bs = None) \<longrightarrow>
        parse_html_to_chunks cs sp files p = ([], Inl (could_not_decode p))) \<and>
     (read_text cs ''utf-8'' bs = None \<longrightarrow>
        ti_parse_html_to_chunks cs sp files p = Inl UnicodeDecodeError) \<and>
     (read_text cs ''utf-8'' bs = Some s \<longrightarrow> ti_parse_html_to_chunks cs sp files p = sp s)"
proof -
  assume f: "files p = Some bs"
  have a: "try_encodings cs bs encodings = Some (enc, s) \<longleftrightarrow>
        (\<exists>i < length encodings. encodings ! i = enc \<and> read_text cs enc bs = Some s \<and>
           (\<forall>j < i. read_text cs (encodings ! j) bs = None))"
    by (rule try_encodings_first)
  have b: "try_encodings cs bs encodings = Some (enc, s) \<longrightarrow>
        parse_html_to_chunks cs sp files p =
          ([''[DEBUG] Successfully read '' @ p @ '' with '' @ enc @ '' encoding''], sp s)"
    using f by (simp add: parse_html_to_chunks_def read_html_str_def)
  have n: "(\<forall>e \<in> set encodings. read_text cs e bs = None) \<longleftrightarrow>
      try_encodings cs bs encodings = None"
    by (simp only: try_encodings_None)
  have c: "(\<forall>e \<in> set encodings. read_text cs e bs = None) \<longleftrightarrow>
        snd (read_html_str cs files p) = Inl (could_not_decode p)"
    unfolding n using f by (simp add: read_html_str_def split: option.splits)
  have d: "(\<forall>e \<in> set encodings. read_text cs e bs = None) \<longleftrightarrow>
        isl (snd (read_html_str cs files p))"
    unfolding n using f by (simp add: read_html_str_def split: option.splits)
  have e: "(\<forall>e \<in> set encodings. read_text cs e bs = None) \<longrightarrow>
        parse_html_to_chunks cs sp files p = ([], Inl (could_not_decode p))"
    unfolding n using f by (simp add: parse_html_to_chunks_def read_html_str_def)
  have g: "read_text cs ''utf-8'' bs = None \<longrightarrow>
        ti_parse_html_to_chunks cs sp files p = Inl UnicodeDecodeError"
    using f by (simp add: ti_parse_html_to_chunks_def)
  have h: "read_text cs ''utf-8'' bs = Some s \<longrightarrow> ti_parse_html_to_chunks cs sp files p = sp s"
    using f by (simp add: ti_parse_html_to_chunks_def)
  from a b c d e g h show ?thesis by blast
qed

text \<open>
  A file holding the single byte E9 (not valid UTF-8), with a UTF-8 decoder that accepts
  ASCII only: utf-8 fails, latin-1 reads it as U+00E9.
\<close>

theorem parse_html_to_chunks_encodings_witness:
  "[''a.htm'' \<mapsto> [0xE9 :: byte]] ''a.htm'' = Some [0xE9] \<and>
   try_encodings
     \<lparr>utf_8 = (\<lambda>bs. if \<forall>b \<in> set bs. b < 0x80 then Some (map unat bs) else None),
      cp1252 = (\<lambda>bs. None)\<rparr> [0xE9] encodings = Some (''latin-1'', [233]) \<and>
   parse_html_to_chunks
     \<lparr>utf_8 = (\<lambda>bs. if \<forall>b \<in> set bs. b < 0x80 then Some (map unat bs) else None),
      cp1252 = (\<lambda>bs. None)\<rparr> (\<lambda>s. Inr (length s)) [''a.htm'' \<mapsto> [0xE9]] ''a.htm''
     = ([''[DEBUG] Successfully read a.htm with latin-1 encoding''], Inr (Suc 0))"
proof -
  let ?cs = "\<lparr>utf_8 = (\<lambda>bs. if \<forall>b \<in> set bs. b < 0x80 then Some (map unat bs) else None),
      cp1252 = (\<lambda>bs::byte list. None :: unicode option)\<rparr>"
  have f: "[''a.htm'' \<mapsto> [0xE9 :: byte]] ''a.htm'' = Some [0xE9]" by simp
  have t: "try_encodings ?cs [0xE9] encodings = Some (''latin-1'', [233])"
    by (simp add: encodings_def read_text_def py_decode_def latin_1_def)
  from parse_html_to_chunks_encodings [of "[''a.htm'' \<mapsto> [0xE9]]" "''a.htm''" "[0xE9]" ?cs
      "''latin-1''" "[233]" "\<lambda>s. Inr (length s)"] t f
  show ?thesis by simp
qed

text \<open>
  C10. In data\_ingestion.py the branch that raises the could-not-decode error is never
  taken: whatever the file holds and whatever the other decoders do, the loop stops at
  utf-8 or at latin-1 with a decoded text, the reading stage never yields the
  could-not-decode error, and an existing file always reaches the splitters.
\<close>

theorem parse_html_to_chunks_never_undecodable:
  "(\<exists>enc s. try_encodings cs bs encodings = Some (enc, s) \<and> (enc = ''utf-8'' \<or> enc = ''latin-1'') \<and>
      parse_html_to_chunks cs sp (files(p \<mapsto> bs)) p =
        ([''[DEBUG] Successfully read '' @ p @ '' with '' @ enc @ '' encoding''], sp s)) \<and>
   snd (read_html_str cs files p) \<noteq> Inl (could_not_decode p)"
proof -
  obtain enc s where t: "try_encodings cs bs encodings = Some (enc, s)"
    and e: "enc = ''utf-8'' \<or> enc = ''latin-1''"
    using try_encodings_latin_1 by blast
  have "parse_html_to_chunks cs sp (files(p \<mapsto> bs)) p =
        ([''[DEBUG] Successfully read '' @ p @ '' with '' @ enc @ '' encoding''], sp s)"
    using t by (simp add: parse_html_to_chunks_def read_html_str_def)
  with t e have first: "\<exists>enc s. try_encodings cs bs encodings = Some (enc, s) \<and>
      (enc = ''utf-8'' \<or> enc = ''latin-1'') \<and>
      parse_html_to_chunks cs sp (files(p \<mapsto> bs)) p =
        ([''[DEBUG] Successfully read '' @ p @ '' with '' @ enc @ '' encoding''], sp s)"
    by blast
  have second: "snd (read_html_str cs files p) \<noteq> Inl (could_not_decode p)"
  proof (cases "files p")
    case None
    then show ?thesis by (simp add: read_html_str_def could_not_decode_def)
  next
    case (Some cs')
    obtain enc' s' where "try_encodings cs cs' encodings = Some (enc', s')"
      using try_encodings_latin_1 by blast
    with Some show ?thesis by (simp add: read_html_str_def)
  qed
  from first second show ?thesis by blast
qed

section \<open>The splitter: grouping, chunking and destination names\<close>

lemma str_split_ne: "str_split sep s \<noteq> []"
  by (induction s) (auto split: list.splits)

lemma hd_str_split: "hd (str_split sep s) = takeWhile (\<lambda>c. c \<noteq> sep) s"
proof (induction s)
  case Nil
  then show ?case by simp
next
  case (Cons c cs)
  then show ?case using str_split_ne [of sep cs]
    by (cases "str_split sep cs") auto
qed

lemma prefix_of_takeWhile: "prefix_of name = takeWhile (\<lambda>c. c \<noteq> CHR ''_'') name"
  by (simp add: prefix_of_def hd_str_split)

lemma prefix_of_no_underscore: "CHR ''_'' \<notin> set (prefix_of name)"
  unfolding prefix_of_takeWhile by (auto dest: set_takeWhileD)



lemma first_seen_snoc:
  "first_seen (xs @ [x]) = (if x \<in> set xs then first_seen xs else first_seen xs @ [x])"
  by (simp add: first_seen_def)

lemma set_first_seen [simp]: "set (first_seen xs) = set xs"
  by (simp add: first_seen_def)

lemma distinct_first_seen [simp]: "distinct (first_seen xs)"
  by (simp add: first_seen_def)

lemma map_of_grouped:
  "map_of (grouped files) k = (if k \<in> prefix_of ` set files then Some (filter (\<lambda>f. prefix_of f = k) files) else None)"
  by (simp add: grouped_def map_of_map_restrict restrict_map_def)

lemma add_file_unfold:
  "add_file (grouped files) file =
     map (\<lambda>(k, fs). if k = prefix_of file then (k, fs @ [file]) else (k, fs))
       (if prefix_of file \<in> prefix_of ` set files then grouped files
        else grouped files @ [(prefix_of file, [])])"
  by (simp add: add_file_def map_of_grouped Let_def)

lemma add_file_grouped: "add_file (grouped files) file = grouped (files @ [file])"
proof (cases "prefix_of file \<in> prefix_of ` set files")
  case True
  then show ?thesis
    unfolding add_file_unfold by (simp add: grouped_def first_seen_snoc)
next
  case False
  then have "filter (\<lambda>f. prefix_of f = prefix_of file) files = []"
    by (simp add: filter_empty_conv) (metis imageI)
  with False show ?thesis
    unfolding add_file_unfold by (simp add: grouped_def first_seen_snoc)
qed

lemma group_files_grouped: "group_files files = grouped files"
proof (induction files rule: rev_induct)
  case Nil
  then show ?case by (simp add: group_files_def grouped_def first_seen_def)
next
  case (snoc f fs)
  then show ?case by (simp add: group_files_def add_file_grouped)
qed

























lemma set_grouped:
  "set (grouped files) = (\<lambda>k. (k, filter (\<lambda>f. prefix_of f = k) files)) ` prefix_of ` set files"
  by (simp add: grouped_def)



lemma grouped_nonempty: "g \<in> set (grouped files) \<Longrightarrow> snd g \<noteq> []"
  by (auto simp: set_grouped filter_empty_conv)



















lemma str_nat_digits: "str_nat 1 = ''1''" "str_nat 2 = ''2''" "str_nat 3 = ''3''"
  by (simp_all add: str_nat.simps)







section \<open>The effect of the calls on the directory\<close>

lemma mkdir_frame: "mkdir d t = Inr t' \<Longrightarrow> n \<noteq> d \<Longrightarrow> map_of t' n = map_of t n"
  by (auto simp: mkdir_def map_add_def split: option.splits node.splits)

lemma shutil_move_frame:
  "shutil_move f d t = Inr t' \<Longrightarrow> n \<noteq> f \<Longrightarrow> n \<noteq> d \<Longrightarrow> map_of t' n = map_of t n"
  by (auto simp: shutil_move_def update_conv' delete_conv'
           split: option.splits node.splits if_splits)

lemma exec_call_frame:
  "exec_call c t = Inr t' \<Longrightarrow> n \<notin> touched c \<Longrightarrow> map_of t' n = map_of t n"
  by (cases c) (auto simp: touched_def dest: mkdir_frame shutil_move_frame)

lemma exec_calls_frame:
  "exec_calls cs t = (e, t') \<Longrightarrow> \<forall>c \<in> set cs. n \<notin> touched c \<Longrightarrow> map_of t' n = map_of t n"
proof (induction cs arbitrary: t)
  case Nil
  then show ?case by simp
next
  case (Cons c cs)
  show ?case
  proof (cases "exec_call c t")
    case (Inl err)
    with Cons.prems show ?thesis by simp
  next
    case (Inr t1)
    with Cons.prems have "exec_calls cs t1 = (e, t')" by simp
    moreover have r: "\<forall>c \<in> set cs. n \<notin> touched c" using Cons.prems(2) by simp
    ultimately have "map_of t' n = map_of t1 n" by (rule Cons.IH)
    moreover have "n \<notin> touched c" using Cons.prems(2) by simp
    then have "map_of t1 n = map_of t n" by (rule exec_call_frame [OF Inr])
    ultimately show ?thesis by simp
  qed
qed

lemma process_group_nonpos:
  assumes "batch_size \<le> 0" and "snd g \<noteq> []"
  shows "process_group batch_size g st = Inr st \<or> (\<exists>e. process_group batch_size g st = Inl e)"
proof -
  obtain p files where g: "g = (p, files)" by (cases g)
  have n: "\<not> int (length files) \<le> batch_size" using assms g by (cases files) auto
  show ?thesis
  proof (cases "batch_size = 0")
    case True
    then show ?thesis using n by (simp add: g process_group_def py_range_def)
  next
    case False
    then have "range_from 0 (int (length files)) batch_size = []"
      using assms(1) by (subst range_from.simps) simp
    then show ?thesis
      using n False by (simp add: g process_group_def py_range_def enumerate_simps)
  qed
qed

lemma process_groups_nonpos:
  assumes "batch_size \<le> 0" and "\<forall>g \<in> set gs. snd g \<noteq> []"
  shows "fst (process_groups batch_size gs st) = fst st"
  using assms(2)
proof (induction gs)
  case Nil
  then show ?case by simp
next
  case (Cons g gs)
  from process_group_nonpos [OF assms(1), of g st] Cons.prems
  consider "process_group batch_size g st = Inr st"
    | e where "process_group batch_size g st = Inl e" by auto
  then show ?case
  proof cases
    case 1
    then show ?thesis using Cons by simp
  next
    case 2
    then show ?thesis by simp
  qed
qed

lemma split_nonpos:
  "batch_size \<le> 0 \<Longrightarrow> fst (split_input_by_source input_dir batch_size) = []"
  unfolding split_input_by_source_def group_files_grouped
  using process_groups_nonpos [of batch_size "grouped (glob_txt input_dir)" "([], [])"]
    grouped_nonempty [of _ "glob_txt input_dir"]
  by auto

lemma touched_emit:
  "c \<in> set (emit ds) \<Longrightarrow> touched c \<subseteq> fst ` set ds \<union> set (concat (map snd ds))"
  by (induction ds) (auto simp: emit_def touched_def)

lemma Mkdir_emit: "Mkdir d \<in> set (emit ds) \<longleftrightarrow> d \<in> fst ` set ds"
  by (induction ds) (auto simp: emit_def)

lemma prefix_of_split:
  "\<exists>rest. name = prefix_of name @ rest \<and> CHR ''_'' \<notin> set (prefix_of name) \<and>
     (rest = [] \<or> hd rest = CHR ''_'')"
proof -
  let ?rest = "dropWhile (\<lambda>c. c \<noteq> CHR ''_'') name"
  have "name = prefix_of name @ ?rest"
    by (simp add: prefix_of_takeWhile)
  moreover have "?rest = [] \<or> hd ?rest = CHR ''_''"
    using hd_dropWhile [of "\<lambda>c. c \<noteq> CHR ''_''" name] by auto
  ultimately show ?thesis
    using prefix_of_no_underscore [of name] by (intro exI [of _ ?rest]) simp
qed

text \<open>
  C4. The grouping key of a file name is the part of the name before its first underscore
  (the whole name when it has none): the name is the key followed by nothing or by a rest
  that starts with an underscore, and the key has no underscore. Each enumerated file is in
  a group, each file of a group has the group's key as its key, and two enumerated files
  are in the same group exactly when their keys are equal.
\<close>

theorem split_groups_by_prefix:
  "(\<exists>rest. name = prefix_of name @ rest \<and> CHR ''_'' \<notin> set (prefix_of name) \<and>
      (rest = [] \<or> hd rest = CHR ''_'')) \<and>
   (\<forall>f \<in> set (glob_txt input_dir). \<exists>g \<in> set (group_files (glob_txt input_dir)). f \<in> set (snd g)) \<and>
   (\<forall>g \<in> set (group_files (glob_txt input_dir)). \<forall>f \<in> set (snd g). fst g = prefix_of f) \<and>
   (\<forall>f1 \<in> set (glob_txt input_dir). \<forall>f2 \<in> set (glob_txt input_dir).
      (\<exists>g \<in> set (group_files (glob_txt input_dir)). f1 \<in> set (snd g) \<and> f2 \<in> set (snd g))
        \<longleftrightarrow> prefix_of f1 = prefix_of f2)"
proof -
  let ?fs = "glob_txt input_dir"
  have a: "\<forall>f \<in> set ?fs. \<exists>g \<in> set (group_files ?fs). f \<in> set (snd g)"
    by (auto simp: group_files_grouped set_grouped)
  have b: "\<forall>g \<in> set (group_files ?fs). \<forall>f \<in> set (snd g). fst g = prefix_of f"
    by (auto simp: group_files_grouped set_grouped)
  have c: "\<forall>f1 \<in> set ?fs. \<forall>f2 \<in> set ?fs.
      (\<exists>g \<in> set (group_files ?fs). f1 \<in> set (snd g) \<and> f2 \<in> set (snd g))
        \<longleftrightarrow> prefix_of f1 = prefix_of f2"
    by (auto simp: group_files_grouped set_grouped)
  from prefix_of_split a b c show ?thesis by blast
qed

theorem split_groups_by_prefix_witness:
  "''a_1.txt'' \<in> set (glob_txt [(''a_1.txt'', File 0), (''b_1.txt'', File 1), (''a_2.txt'', File 2)]) \<and>
   ''a_2.txt'' \<in> set (glob_txt [(''a_1.txt'', File 0), (''b_1.txt'', File 1), (''a_2.txt'', File 2)]) \<and>
   ''b_1.txt'' \<in> set (glob_txt [(''a_1.txt'', File 0), (''b_1.txt'', File 1), (''a_2.txt'', File 2)]) \<and>
   prefix_of ''a_1.txt'' = ''a'' \<and>
   (\<exists>g \<in> set (group_files (glob_txt [(''a_1.txt'', File 0), (''b_1.txt'', File 1), (''a_2.txt'', File 2)])).
      ''a_1.txt'' \<in> set (snd g) \<and> ''a_2.txt'' \<in> set (snd g)) \<and>
   \<not> (\<exists>g \<in> set (group_files (glob_txt [(''a_1.txt'', File 0), (''b_1.txt'', File 1), (''a_2.txt'', File 2)])).
      ''a_1.txt'' \<in> set (snd g) \<and> ''b_1.txt'' \<in> set (snd g))"
proof -
  let ?d = "[(''a_1.txt'', File 0), (''b_1.txt'', File 1), (''a_2.txt'', File 2)]"
  have g: "glob_txt ?d = [''a_1.txt'', ''b_1.txt'', ''a_2.txt'']"
    by (simp add: glob_txt_def endswith_def)
  have m: "''a_1.txt'' \<in> set (glob_txt ?d)" "''a_2.txt'' \<in> set (glob_txt ?d)"
    "''b_1.txt'' \<in> set (glob_txt ?d)"
    unfolding g by simp_all
  have p: "prefix_of ''a_1.txt'' = ''a''" "prefix_of ''a_2.txt'' = ''a''" "prefix_of ''b_1.txt'' = ''b''"
    by (simp_all add: prefix_of_takeWhile)
  from split_groups_by_prefix [of "''a_1.txt''" ?d]
  have t: "\<forall>f1 \<in> set (glob_txt ?d). \<forall>f2 \<in> set (glob_txt ?d).
      (\<exists>g \<in> set (group_files (glob_txt ?d)). f1 \<in> set (snd g) \<and> f2 \<in> set (snd g))
        \<longleftrightarrow> prefix_of f1 = prefix_of f2"
    by (rule conjunct2 [THEN conjunct2, THEN conjunct2])
  from bspec [OF bspec [OF t m(1)] m(2)] have s: "(\<exists>g \<in> set (group_files (glob_txt ?d)).
      ''a_1.txt'' \<in> set (snd g) \<and> ''a_2.txt'' \<in> set (snd g)) \<longleftrightarrow> prefix_of ''a_1.txt'' = prefix_of ''a_2.txt''"
    .
  from bspec [OF bspec [OF t m(1)] m(3)] have n: "(\<exists>g \<in> set (group_files (glob_txt ?d)).
      ''a_1.txt'' \<in> set (snd g) \<and> ''b_1.txt'' \<in> set (snd g)) \<longleftrightarrow> prefix_of ''a_1.txt'' = prefix_of ''b_1.txt''"
    .
  have s': "\<exists>g \<in> set (group_files (glob_txt ?d)). ''a_1.txt'' \<in> set (snd g) \<and> ''a_2.txt'' \<in> set (snd g)"
    unfolding s p ..
  have n': "\<not> (\<exists>g \<in> set (group_files (glob_txt ?d)). ''a_1.txt'' \<in> set (snd g) \<and> ''b_1.txt'' \<in> set (snd g))"
    unfolding n p by simp
  from m p(1) s' n' show ?thesis by (intro conjI)
qed












end
